theory Spec2Isabelle
  imports Main
begin

section \<open>JavaScript maps with insertion order\<close>

text \<open>
  The cache of \<^verbatim>\<open>cache.js\<close> keeps two JavaScript \<^verbatim>\<open>Map\<close> objects. A \<^verbatim>\<open>Map\<close> iterates its
  keys in the order in which they were first added; \<^verbatim>\<open>Map.prototype.set\<close> on a key that is
  already present replaces the value and leaves the key where it is. The model is an
  association list in iteration order.
\<close>

type_synonym ('k, 'v) js_map = "('k \<times> 'v) list"

definition map_has :: "('k, 'v) js_map \<Rightarrow> 'k \<Rightarrow> bool" where
  "map_has m k = (k \<in> set (map fst m))"

definition map_get :: "('k, 'v) js_map \<Rightarrow> 'k \<Rightarrow> 'v option" where
  "map_get m k = map_of m k"

fun map_set :: "('k, 'v) js_map \<Rightarrow> 'k \<Rightarrow> 'v \<Rightarrow> ('k, 'v) js_map" where
  "map_set [] k v = [(k, v)]"
| "map_set ((a, b) # m) k v = (if a = k then (k, v) # m else (a, b) # map_set m k v)"

definition map_delete :: "('k, 'v) js_map \<Rightarrow> 'k \<Rightarrow> ('k, 'v) js_map" where
  "map_delete m k = filter (\<lambda>p. fst p \<noteq> k) m"

definition map_keys :: "('k, 'v) js_map \<Rightarrow> 'k list" where
  "map_keys m = map fst m"

text \<open>\<^verbatim>\<open>m.keys().next().value\<close>: the first key, \<^verbatim>\<open>undefined\<close> (here \<open>None\<close>) on an empty map.\<close>

definition map_first_key :: "('k, 'v) js_map \<Rightarrow> 'k option" where
  "map_first_key m = (case m of [] \<Rightarrow> None | (k, _) # _ \<Rightarrow> Some k)"

section \<open>The cache (class \<^verbatim>\<open>Cache\<close>)\<close>

text \<open>
  Times and durations are milliseconds, as \<^verbatim>\<open>Date.now()\<close> gives them; every operation that
  reads the clock takes the reading as its argument \<open>now\<close>. An optional number
  (\<^verbatim>\<open>options.maxSize\<close>, \<^verbatim>\<open>options.defaultTTL\<close>, the \<^verbatim>\<open>ttl\<close> argument) is an \<open>int option\<close>,
  \<open>None\<close> for \<^verbatim>\<open>undefined\<close>. \<open>num_or x d\<close> is the JavaScript expression \<^verbatim>\<open>x || d\<close> on such a
  number: \<^verbatim>\<open>undefined\<close> and \<^verbatim>\<open>0\<close> are falsy and give \<open>d\<close>.
\<close>

definition num_or :: "int option \<Rightarrow> int \<Rightarrow> int" where
  "num_or x d = (case x of None \<Rightarrow> d | Some n \<Rightarrow> if n = 0 then d else n)"

record cache_options =
  opt_maxSize :: "int option"
  opt_defaultTTL :: "int option"

record ('k, 'v) Cache =
  maxSize :: int
  defaultTTL :: int
  cache :: "('k, 'v) js_map"
  timestamps :: "('k, int) js_map"

definition new_Cache :: "cache_options \<Rightarrow> ('k, 'v) Cache" where
  "new_Cache options =
     \<lparr> maxSize = num_or (opt_maxSize options) 1000,
       defaultTTL = num_or (opt_defaultTTL options) 300000,
       cache = [],
       timestamps = [] \<rparr>"

definition cache_delete :: "('k, 'v) Cache \<Rightarrow> 'k \<Rightarrow> ('k, 'v) Cache" where
  "cache_delete c k =
     c\<lparr> cache := map_delete (cache c) k, timestamps := map_delete (timestamps c) k \<rparr>"

text \<open>
  \<^verbatim>\<open>get\<close> returns the value (\<open>None\<close> for \<^verbatim>\<open>undefined\<close>) and the cache after the call. The test
  \<^verbatim>\<open>timestamp && Date.now() > timestamp\<close> is false when the timestamp is missing or is \<open>0\<close>.
\<close>

definition cache_get :: "('k, 'v) Cache \<Rightarrow> 'k \<Rightarrow> int \<Rightarrow> 'v option \<times> ('k, 'v) Cache" where
  "cache_get c k now =
     (if \<not> map_has (cache c) k then (None, c)
      else
        let entry = map_get (cache c) k;
            timestamp = map_get (timestamps c) k
        in case timestamp of
             None \<Rightarrow> (entry, c)
           | Some ts \<Rightarrow>
               if ts \<noteq> 0 \<and> now > ts then (None, cache_delete c k) else (entry, c))"

text \<open>
  \<^verbatim>\<open>set\<close>: when the map is at or over \<^verbatim>\<open>maxSize\<close> the first key is deleted (deleting
  \<^verbatim>\<open>undefined\<close>, the first key of an empty map, removes nothing); then the entry is stored and
  its expiry time is \<^verbatim>\<open>Date.now() + (ttl || this.defaultTTL)\<close>.
\<close>

definition cache_set ::
  "('k, 'v) Cache \<Rightarrow> 'k \<Rightarrow> 'v \<Rightarrow> int option \<Rightarrow> int \<Rightarrow> ('k, 'v) Cache" where
  "cache_set c k v ttl now =
     (let c1 = (if int (length (cache c)) \<ge> maxSize c
                then (case map_first_key (cache c) of
                        None \<Rightarrow> c
                      | Some firstKey \<Rightarrow> cache_delete c firstKey)
                else c)
      in c1\<lparr> cache := map_set (cache c1) k v,
              timestamps := map_set (timestamps c1) k (now + num_or ttl (defaultTTL c1)) \<rparr>)"

definition cache_clear :: "('k, 'v) Cache \<Rightarrow> ('k, 'v) Cache" where
  "cache_clear c = c\<lparr> cache := [], timestamps := [] \<rparr>"

definition cache_size :: "('k, 'v) Cache \<Rightarrow> nat" where
  "cache_size c = length (cache c)"

definition cache_has :: "('k, 'v) Cache \<Rightarrow> 'k \<Rightarrow> bool" where
  "cache_has c k = map_has (cache c) k"

record cache_stats =
  stats_size :: nat
  stats_maxSize :: int
  stats_defaultTTL :: int

definition stats :: "('k, 'v) Cache \<Rightarrow> cache_stats" where
  "stats c = \<lparr> stats_size = length (cache c), stats_maxSize = maxSize c,
               stats_defaultTTL = defaultTTL c \<rparr>"

text \<open>A sequence of \<^verbatim>\<open>set\<close> calls, each with its key, value, optional TTL and clock reading.\<close>

fun set_all :: "('k, 'v) Cache \<Rightarrow> ('k \<times> 'v \<times> int option \<times> int) list \<Rightarrow> ('k, 'v) Cache" where
  "set_all c [] = c"
| "set_all c ((k, v, ttl, now) # calls) = set_all (cache_set c k v ttl now) calls"

section \<open>JavaScript values and error objects\<close>

text \<open>
  The error classes of \<^verbatim>\<open>errors.js\<close>: \<^verbatim>\<open>FCAError extends Error\<close>, and six subclasses of
  \<^verbatim>\<open>FCAError\<close>. \<open>Error\<close> is the built-in class and \<open>TypeError\<close> its built-in subclass, which
  the engine throws when something that is not a function is called.
\<close>

datatype error_class =
  Error | TypeError | FCAError | AuthenticationError | NetworkError | ValidationError
  | ConfigurationError | SecurityError | DatabaseError

text \<open>
  Values are the primitives, ordinary objects (their own properties, as an association list;
  their prototype is \<^verbatim>\<open>Object.prototype\<close>) and error objects. An error object carries its
  class and the properties the constructors set: \<^verbatim>\<open>message\<close>, \<^verbatim>\<open>code\<close>, \<^verbatim>\<open>details\<close>,
  \<^verbatim>\<open>timestamp\<close>; on a built-in error the last three are \<^verbatim>\<open>undefined\<close> unless somebody
  assigned them. An error code is a string, as the constructors document it, or
  \<^verbatim>\<open>undefined\<close> (\<open>None\<close>).
\<close>

datatype js_value =
  JUndefined | JNull | JBool bool | JNum int | JStr string
  | JObj "(string \<times> js_value) list"
  | JErr js_error
and js_error =
  JsError (cls: error_class) (message: string) (code: "string option") (details: js_value)
    (timestamp: js_value)

fun truthy :: "js_value \<Rightarrow> bool" where
  "truthy JUndefined = False"
| "truthy JNull = False"
| "truthy (JBool b) = b"
| "truthy (JNum n) = (n \<noteq> 0)"
| "truthy (JStr s) = (s \<noteq> [])"
| "truthy (JObj ps) = True"
| "truthy (JErr e) = True"


fun class_name :: "error_class \<Rightarrow> string" where
  "class_name Error = ''Error''"
| "class_name TypeError = ''TypeError''"
| "class_name FCAError = ''FCAError''"
| "class_name AuthenticationError = ''AuthenticationError''"
| "class_name NetworkError = ''NetworkError''"
| "class_name ValidationError = ''ValidationError''"
| "class_name ConfigurationError = ''ConfigurationError''"
| "class_name SecurityError = ''SecurityError''"
| "class_name DatabaseError = ''DatabaseError''"

text \<open>An optional string as a value.\<close>

definition code_value :: "string option \<Rightarrow> js_value" where
  "code_value x = (case x of None \<Rightarrow> JUndefined | Some s \<Rightarrow> JStr s)"

subsection \<open>Reading a property\<close>

text \<open>
  \<^verbatim>\<open>obj[name]\<close> looks at the object's own properties and then along its prototype chain.
  What it finds is a value, or a built-in member inherited from a prototype (a function,
  or for \<^verbatim>\<open>__proto__\<close> the prototype itself), recorded by its name: such a member is neither
  \<^verbatim>\<open>undefined\<close> nor \<^verbatim>\<open>null\<close>, and it is truthy. A name found nowhere reads as \<^verbatim>\<open>undefined\<close>.
\<close>

datatype property = Value js_value | Builtin string

fun truthy_property :: "property \<Rightarrow> bool" where
  "truthy_property (Value v) = truthy v"
| "truthy_property (Builtin name) = True"

text \<open>The names every ordinary object inherits from \<^verbatim>\<open>Object.prototype\<close>.\<close>

definition Object_prototype_names :: "string list" where
  "Object_prototype_names =
     [''constructor'', ''__defineGetter__'', ''__defineSetter__'', ''hasOwnProperty'',
      ''__lookupGetter__'', ''__lookupSetter__'', ''isPrototypeOf'', ''propertyIsEnumerable'',
      ''toString'', ''valueOf'', ''__proto__'', ''toLocaleString'']"

definition inherited :: "string \<Rightarrow> property" where
  "inherited name =
     (if name \<in> set Object_prototype_names then Builtin name else Value JUndefined)"

text \<open>
  The \<^verbatim>\<open>stack\<close> of an error is a string that starts with the class name and the message;
  the frames that follow are not modelled.
\<close>

definition stack_header :: "js_error \<Rightarrow> string" where
  "stack_header e =
     (if message e = [] then class_name (cls e) else class_name (cls e) @ '': '' @ message e)"

text \<open>
  An error object has \<^verbatim>\<open>message\<close>, \<^verbatim>\<open>name\<close> and \<^verbatim>\<open>stack\<close>, the three properties the
  \<^verbatim>\<open>FCAError\<close> constructor adds, and what it inherits: \<^verbatim>\<open>Error.prototype\<close> and the class
  prototypes add \<^verbatim>\<open>constructor\<close> and \<^verbatim>\<open>toString\<close>, names that \<^verbatim>\<open>Object.prototype\<close> has too.
  The code modelled here reads properties of objects only; the last equation is for the
  other values.
\<close>

fun get_prop :: "js_value \<Rightarrow> string \<Rightarrow> property" where
  "get_prop (JObj ps) name = (case map_of ps name of None \<Rightarrow> inherited name | Some v \<Rightarrow> Value v)"
| "get_prop (JErr e) name =
     (if name = ''message'' then Value (JStr (message e))
      else if name = ''name'' then Value (JStr (class_name (cls e)))
      else if name = ''stack'' then Value (JStr (stack_header e))
      else if name = ''code'' then Value (code_value (code e))
      else if name = ''details'' then Value (details e)
      else if name = ''timestamp'' then Value (timestamp e)
      else inherited name)"
| "get_prop v name = Value JUndefined"

text \<open>The prototype chain of each class, and \<^verbatim>\<open>error instanceof C\<close>.\<close>

fun superclasses :: "error_class \<Rightarrow> error_class list" where
  "superclasses Error = [Error]"
| "superclasses TypeError = [TypeError, Error]"
| "superclasses FCAError = [FCAError, Error]"
| "superclasses c = [c, FCAError, Error]"

definition instanceof :: "js_error \<Rightarrow> error_class \<Rightarrow> bool" where
  "instanceof e c = (c \<in> set (superclasses (cls e)))"

text \<open>
  The constructors. \<open>now\<close> is \<^verbatim>\<open>new Date().toISOString()\<close> at construction. The parameter
  default \<^verbatim>\<open>details = {}\<close> applies when the argument is \<^verbatim>\<open>undefined\<close>. \<open>fca_init\<close> is the body
  of the \<^verbatim>\<open>FCAError\<close> constructor, run for the class being constructed.
\<close>

definition new_Error :: "string \<Rightarrow> js_error" where
  "new_Error msg = JsError Error msg None JUndefined JUndefined"

definition new_TypeError :: "string \<Rightarrow> js_error" where
  "new_TypeError msg = JsError TypeError msg None JUndefined JUndefined"

definition default_details :: "js_value \<Rightarrow> js_value" where
  "default_details d = (if d = JUndefined then JObj [] else d)"

definition fca_init ::
  "error_class \<Rightarrow> string \<Rightarrow> string option \<Rightarrow> js_value \<Rightarrow> string \<Rightarrow> js_error" where
  "fca_init c msg cd d now = JsError c msg cd (default_details d) (JStr now)"

definition new_FCAError :: "string \<Rightarrow> string option \<Rightarrow> js_value \<Rightarrow> string \<Rightarrow> js_error" where
  "new_FCAError msg cd d now = fca_init FCAError msg cd d now"

definition new_AuthenticationError :: "string \<Rightarrow> js_value \<Rightarrow> string \<Rightarrow> js_error" where
  "new_AuthenticationError msg d now =
     fca_init AuthenticationError msg (Some ''AUTH_ERROR'') (default_details d) now"

definition new_NetworkError :: "string \<Rightarrow> js_value \<Rightarrow> string \<Rightarrow> js_error" where
  "new_NetworkError msg d now =
     fca_init NetworkError msg (Some ''NETWORK_ERROR'') (default_details d) now"

definition new_ValidationError :: "string \<Rightarrow> js_value \<Rightarrow> string \<Rightarrow> js_error" where
  "new_ValidationError msg d now =
     fca_init ValidationError msg (Some ''VALIDATION_ERROR'') (default_details d) now"

definition new_ConfigurationError :: "string \<Rightarrow> js_value \<Rightarrow> string \<Rightarrow> js_error" where
  "new_ConfigurationError msg d now =
     fca_init ConfigurationError msg (Some ''CONFIG_ERROR'') (default_details d) now"

definition new_SecurityError :: "string \<Rightarrow> js_value \<Rightarrow> string \<Rightarrow> js_error" where
  "new_SecurityError msg d now =
     fca_init SecurityError msg (Some ''SECURITY_ERROR'') (default_details d) now"

definition new_DatabaseError :: "string \<Rightarrow> js_value \<Rightarrow> string \<Rightarrow> js_error" where
  "new_DatabaseError msg d now =
     fca_init DatabaseError msg (Some ''DATABASE_ERROR'') (default_details d) now"

subsection \<open>\<^verbatim>\<open>ErrorHandler.getSafeErrorMessage\<close>\<close>

definition getSafeErrorMessage :: "js_error \<Rightarrow> string" where
  "getSafeErrorMessage e =
     (if instanceof e FCAError then
        (if instanceof e SecurityError
         then ''A security error occurred. Please check your credentials and try again.''
         else message e)
      else ''An unexpected error occurred. Please try again later.'')"

section \<open>The error handler (\<^verbatim>\<open>errorHandler.js\<close>)\<close>

definition ERROR_CODES :: "(string \<times> string) list" where
  "ERROR_CODES =
     [(''AUTH_LOGIN_FAILED'', ''ERR_AUTH_01''),
      (''AUTH_CHECKPOINT'', ''ERR_AUTH_02''),
      (''AUTH_2FA_REQUIRED'', ''ERR_AUTH_03''),
      (''AUTH_SESSION_EXPIRED'', ''ERR_AUTH_04''),
      (''AUTH_CREDENTIALS_INVALID'', ''ERR_AUTH_05''),
      (''NETWORK_TIMEOUT'', ''ERR_NETWORK_01''),
      (''NETWORK_CONNECTION_FAILED'', ''ERR_NETWORK_02''),
      (''NETWORK_REQUEST_FAILED'', ''ERR_NETWORK_03''),
      (''NETWORK_PARSE_FAILED'', ''ERR_NETWORK_04''),
      (''NETWORK_RATE_LIMITED'', ''ERR_NETWORK_05''),
      (''VALIDATION_MISSING_PARAM'', ''ERR_VALIDATION_01''),
      (''VALIDATION_INVALID_FORMAT'', ''ERR_VALIDATION_02''),
      (''VALIDATION_OUT_OF_RANGE'', ''ERR_VALIDATION_03''),
      (''CONFIG_MISSING'', ''ERR_CONFIG_01''),
      (''CONFIG_INVALID'', ''ERR_CONFIG_02''),
      (''CONFIG_FILE_NOT_FOUND'', ''ERR_CONFIG_03''),
      (''SECURITY_ENCRYPTION_FAILED'', ''ERR_SECURITY_01''),
      (''SECURITY_DECRYPTION_FAILED'', ''ERR_SECURITY_02''),
      (''SECURITY_VALIDATION_FAILED'', ''ERR_SECURITY_03''),
      (''SECURITY_PERMISSION_DENIED'', ''ERR_SECURITY_04''),
      (''DATABASE_CONNECTION_FAILED'', ''ERR_DATABASE_01''),
      (''DATABASE_QUERY_FAILED'', ''ERR_DATABASE_02''),
      (''DATABASE_RECORD_NOT_FOUND'', ''ERR_DATABASE_03''),
      (''UNKNOWN_ERROR'', ''ERR_GENERAL_01''),
      (''NOT_IMPLEMENTED'', ''ERR_GENERAL_02''),
      (''OPERATION_CANCELLED'', ''ERR_GENERAL_03'')]"

text \<open>The table as the object it is in the source, and \<^verbatim>\<open>ERROR_CODES.UNKNOWN_ERROR\<close>.\<close>

definition ERROR_CODES_object :: js_value where
  "ERROR_CODES_object = JObj (map (\<lambda>(name, c). (name, JStr c)) ERROR_CODES)"

definition UNKNOWN_ERROR :: string where
  "UNKNOWN_ERROR = ''ERR_GENERAL_01''"

text \<open>
  \<^verbatim>\<open>RETRY_CONFIG\<close>, keyed by \<^verbatim>\<open>ERROR_CODES.NETWORK_TIMEOUT\<close>,
  \<^verbatim>\<open>ERROR_CODES.NETWORK_CONNECTION_FAILED\<close> and \<^verbatim>\<open>ERROR_CODES.AUTH_SESSION_EXPIRED\<close>.
\<close>

definition RETRY_CONFIG :: js_value where
  "RETRY_CONFIG =
     JObj [(''ERR_NETWORK_01'', JObj [(''maxRetries'', JNum 3), (''delay'', JNum 1000)]),
           (''ERR_NETWORK_02'', JObj [(''maxRetries'', JNum 3), (''delay'', JNum 2000)]),
           (''ERR_AUTH_04'', JObj [(''maxRetries'', JNum 1), (''delay'', JNum 0)])]"

text \<open>The property key an optional string turns into: \<^verbatim>\<open>undefined\<close> reads the key "undefined".\<close>

definition property_key :: "string option \<Rightarrow> string" where
  "property_key x = (case x of None \<Rightarrow> ''undefined'' | Some s \<Rightarrow> s)"

text \<open>
  \<^verbatim>\<open>getErrorCode(errorType)\<close> is \<^verbatim>\<open>ERROR_CODES[errorType] || ERROR_CODES.UNKNOWN_ERROR\<close>: the
  read goes through the table's prototype chain like any other.
\<close>

definition getErrorCode :: "string option \<Rightarrow> property" where
  "getErrorCode errorType =
     (let found = get_prop ERROR_CODES_object (property_key errorType)
      in if truthy_property found then found else Value (JStr UNKNOWN_ERROR))"

record error_response =
  resp_error :: bool
  resp_message :: js_value
  resp_code :: js_value
  resp_errorCode :: property
  resp_details :: js_value
  resp_timestamp :: js_value

text \<open>\<open>now\<close> is the clock at the call, used only for an error that is not an \<^verbatim>\<open>FCAError\<close>.\<close>

definition createErrorResponse :: "js_error \<Rightarrow> string \<Rightarrow> error_response" where
  "createErrorResponse e now =
     (if instanceof e FCAError then
        \<lparr> resp_error = True,
          resp_message = JStr (message e),
          resp_code = code_value (code e),
          resp_errorCode = getErrorCode (code e),
          resp_details = details e,
          resp_timestamp = timestamp e \<rparr>
      else
        \<lparr> resp_error = True,
          resp_message = JStr (if message e \<noteq> [] then message e
                               else ''An unknown error occurred''),
          resp_code = JStr ''UNKNOWN_ERROR'',
          resp_errorCode = Value (JStr UNKNOWN_ERROR),
          resp_details = JObj [],
          resp_timestamp = JStr now \<rparr>)"

subsection \<open>\<^verbatim>\<open>validateRequiredParams\<close>\<close>



subsection \<open>Retry bookkeeping\<close>

text \<open>
  \<^verbatim>\<open>retryCounts\<close> is a module-level \<^verbatim>\<open>Map\<close> from error code to the number of retries requested.
  \<^verbatim>\<open>shouldRetry\<close> returns \<^verbatim>\<open>RETRY_CONFIG[errorCode] && maxRetries > 0\<close>; the model gives its
  truth value.
\<close>

type_synonym retry_counts = "(string, nat) js_map"

definition shouldRetry :: "string \<Rightarrow> int \<Rightarrow> bool" where
  "shouldRetry errorCode maxR = (truthy_property (get_prop RETRY_CONFIG errorCode) \<and> maxR > 0)"

definition getRetryCount :: "retry_counts \<Rightarrow> string \<Rightarrow> nat" where
  "getRetryCount rc errorCode = (case map_get rc errorCode of None \<Rightarrow> 0 | Some n \<Rightarrow> n)"

definition incrementRetryCount :: "retry_counts \<Rightarrow> string \<Rightarrow> retry_counts" where
  "incrementRetryCount rc errorCode =
     (let current = (case map_get rc errorCode of None \<Rightarrow> 0 | Some n \<Rightarrow> n)
      in map_set rc errorCode (current + 1))"

definition resetRetryCount :: "retry_counts \<Rightarrow> string \<Rightarrow> retry_counts" where
  "resetRetryCount rc errorCode = map_delete rc errorCode"

subsection \<open>The logger the handler requires\<close>

text \<open>
  \<^verbatim>\<open>errorHandler.js\<close> takes its logger from \<^verbatim>\<open>require('../../func/logger')\<close>. That module
  exports a function \<^verbatim>\<open>(text, type) => ...\<close> and gives it two properties, \<^verbatim>\<open>Logger\<close> and
  \<^verbatim>\<open>LOG_LEVELS\<close>; the methods \<^verbatim>\<open>error\<close>, \<^verbatim>\<open>warn\<close>, \<^verbatim>\<open>info\<close> and \<^verbatim>\<open>debug\<close> belong to
  instances of the class \<^verbatim>\<open>Logger\<close>, not to the exported function. \<open>logger_member_names\<close>
  lists what a read \<^verbatim>\<open>logger[name]\<close> can find: the function's own properties, those of
  \<^verbatim>\<open>Function.prototype\<close>, and those of \<^verbatim>\<open>Object.prototype\<close>.
\<close>

datatype log_level = Level_error | Level_warn | Level_info | Level_debug

fun level_name :: "log_level \<Rightarrow> string" where
  "level_name Level_error = ''error''"
| "level_name Level_warn = ''warn''"
| "level_name Level_info = ''info''"
| "level_name Level_debug = ''debug''"

definition logger_member_names :: "string list" where
  "logger_member_names =
     [''Logger'', ''LOG_LEVELS'', ''length'', ''name'',
      ''apply'', ''bind'', ''call'', ''arguments'', ''caller'']
     @ Object_prototype_names"

text \<open>
  A call \<^verbatim>\<open>logger.error(...)\<close>, \<^verbatim>\<open>logger[opts.logLevel](...)\<close> and so on, written \<open>callee\<close> in
  the source: when the logger has no member of that name the callee is \<^verbatim>\<open>undefined\<close> and
  the call throws a \<^verbatim>\<open>TypeError\<close> (\<open>Some\<close> of it); \<open>None\<close> stands for a call that returns.
  The log level is one of the four the options document.
\<close>

definition call_logger :: "string \<Rightarrow> log_level \<Rightarrow> js_error option" where
  "call_logger callee level =
     (if level_name level \<in> set logger_member_names then None
      else Some (new_TypeError (callee @ '' is not a function'')))"

text \<open>\<^verbatim>\<open>reportError\<close> only calls \<^verbatim>\<open>logger.debug\<close>.\<close>

definition reportError :: "js_error option" where
  "reportError = call_logger ''logger.debug'' Level_debug"

subsection \<open>\<^verbatim>\<open>handleApiError\<close>\<close>

text \<open>Decimal rendering of a number inside a template string.\<close>

function decimal :: "nat \<Rightarrow> string" where
  "decimal n = (if n < 10 then [] else decimal (n div 10)) @ [''0123456789'' ! (n mod 10)]"
  by pat_completeness auto
termination
  by (relation "measure id") auto

declare decimal.simps [simp del]

record handler_options =
  retry :: bool
  maxRetries :: int
  retryDelay :: int
  report :: bool
  logLevel :: log_level

text \<open>The defaults of \<^verbatim>\<open>handleApiError\<close>; a caller's options override them field by field.\<close>

definition default_options :: handler_options where
  "default_options =
     \<lparr> retry = False, maxRetries = 3, retryDelay = 1000, report = True,
       logLevel = Level_error \<rparr>"

text \<open>
  How the call ends: the callback is called with an error (and the promise resolves with
  what the callback returns), or the promise is rejected with a thrown error.
\<close>

datatype outcome = CallbackWith js_error | Throw js_error

text \<open>
  The end of \<^verbatim>\<open>handleApiError\<close>, after the retry block: the callback if there is one,
  otherwise the error itself when it is an \<^verbatim>\<open>FCAError\<close>, otherwise a \<^verbatim>\<open>NetworkError\<close> around it.
\<close>

definition deliver :: "js_error \<Rightarrow> bool \<Rightarrow> string \<Rightarrow> outcome" where
  "deliver e has_callback now =
     (if has_callback then CallbackWith e
      else if instanceof e FCAError then Throw e
      else Throw (new_NetworkError ''An unexpected error occurred''
                    (JObj [(''originalError'', JErr e)]) now))"

text \<open>\<^verbatim>\<open>const errorCode = error.code || ERROR_CODES.UNKNOWN_ERROR\<close>.\<close>

definition errorCode_of :: "js_error \<Rightarrow> string" where
  "errorCode_of e =
     (case code e of None \<Rightarrow> UNKNOWN_ERROR | Some s \<Rightarrow> if s = [] then UNKNOWN_ERROR else s)"

text \<open>
  The function is \<^verbatim>\<open>async\<close>: whatever is thrown inside it rejects the promise it returns.
  \<open>has_callback\<close> is \<^verbatim>\<open>typeof callback === 'function'\<close>; \<open>now\<close> is the clock when an error is
  constructed; the state is the \<^verbatim>\<open>retryCounts\<close> map. The statements are taken in the
  order of the source, each logger call first: the log line for the error, the report,
  then the retry block with its own log lines (the wait of \<^verbatim>\<open>retryDelay\<close> milliseconds
  between the log line and the retry signal changes no state).
\<close>

definition handleApiError ::
  "js_error \<Rightarrow> string \<Rightarrow> handler_options \<Rightarrow> bool \<Rightarrow> string \<Rightarrow> retry_counts
     \<Rightarrow> outcome \<times> retry_counts" where
  "handleApiError e context opts has_callback now rc =
     (let errorCode = errorCode_of e
      in case call_logger ''logger[opts.logLevel]'' (logLevel opts) of
           Some thrown \<Rightarrow> (Throw thrown, rc)
         | None \<Rightarrow>
        (case (if report opts then reportError else None) of
           Some thrown \<Rightarrow> (Throw thrown, rc)
         | None \<Rightarrow>
        if retry opts \<and> shouldRetry errorCode (maxRetries opts) then
          (let retryCount = getRetryCount rc errorCode
           in if int retryCount < maxRetries opts then
                (let rc1 = incrementRetryCount rc errorCode
                 in case call_logger ''logger.info'' Level_info of
                      Some thrown \<Rightarrow> (Throw thrown, rc1)
                    | None \<Rightarrow>
                   if has_callback then
                     (CallbackWith
                        (new_Error (''Retry attempt '' @ decimal (retryCount + 1))), rc1)
                   else
                     (Throw
                        (new_NetworkError
                           (''Operation failed, retry attempt '' @ decimal (retryCount + 1))
                           (JObj [(''originalError'', JErr e),
                                  (''retryAttempt'', JNum (int (retryCount + 1)))])
                           now), rc1))
              else
                (case call_logger ''logger.warn'' Level_warn of
                   Some thrown \<Rightarrow> (Throw thrown, rc)
                 | None \<Rightarrow> (deliver e has_callback now, resetRetryCount rc errorCode)))
        else (deliver e has_callback now, rc)))"

text \<open>
  The handler called for one failure after the other, with the same context and options:
  the outcomes in order, and the retry counts at the end.
\<close>

fun handle_each ::
  "js_error list \<Rightarrow> string \<Rightarrow> handler_options \<Rightarrow> bool \<Rightarrow> string \<Rightarrow> retry_counts
     \<Rightarrow> outcome list \<times> retry_counts" where
  "handle_each [] context opts has_callback now rc = ([], rc)"
| "handle_each (e # es) context opts has_callback now rc =
     (let (out, rc1) = handleApiError e context opts has_callback now rc;
          (outs, rc2) = handle_each es context opts has_callback now rc1
      in (out # outs, rc2))"

section \<open>Calls of the cache methods\<close>

text \<open>
  One call of any of the seven methods: the thrown error, or what the call returns with the
  cache after it. No statement of these methods throws, so no equation has an \<open>Inl\<close>.
\<close>

datatype ('k, 'v) cache_call =
  Call_set 'k 'v "int option" int
  | Call_get 'k int
  | Call_has 'k
  | Call_delete 'k
  | Call_clear
  | Call_size
  | Call_stats

datatype 'v cache_reply =
  Returned_nothing
  | Returned_value "'v option"
  | Returned_bool bool
  | Returned_number nat
  | Returned_stats cache_stats

fun perform ::
  "('k, 'v) Cache \<Rightarrow> ('k, 'v) cache_call \<Rightarrow> js_error + ('v cache_reply \<times> ('k, 'v) Cache)" where
  "perform c (Call_set k v ttl now) = Inr (Returned_nothing, cache_set c k v ttl now)"
| "perform c (Call_get k now) =
     Inr (Returned_value (fst (cache_get c k now)), snd (cache_get c k now))"
| "perform c (Call_has k) = Inr (Returned_bool (cache_has c k), c)"
| "perform c (Call_delete k) = Inr (Returned_nothing, cache_delete c k)"
| "perform c Call_clear = Inr (Returned_nothing, cache_clear c)"
| "perform c Call_size = Inr (Returned_number (cache_size c), c)"
| "perform c Call_stats = Inr (Returned_stats (stats c), c)"

text \<open>
  The two maps of a cache hold the same keys, each once: what the constructor sets up and
  every method keeps.
\<close>

definition cache_wf :: "('k, 'v) Cache \<Rightarrow> bool" where
  "cache_wf c =
     (distinct (map_keys (cache c)) \<and> map_keys (timestamps c) = map_keys (cache c))"

section \<open>Example inputs\<close>

text \<open>
  An error that carries the catalog code of \<^verbatim>\<open>NETWORK_TIMEOUT\<close>, and the handler options with
  \<^verbatim>\<open>retry: true\<close> (so \<^verbatim>\<open>maxRetries\<close> is 3).
\<close>

definition timeout_error :: js_error where
  "timeout_error =
     new_FCAError ''Request timed out'' (Some ''ERR_NETWORK_01'') JUndefined
       ''2024-01-01T00:00:00.000Z''"

definition retry_options :: handler_options where
  "retry_options = default_options\<lparr> retry := True \<rparr>"

text \<open>A cache of capacity 2 with string keys.\<close>

definition cache2 :: "(string, nat) Cache" where
  "cache2 = new_Cache \<lparr> opt_maxSize = Some 2, opt_defaultTTL = None \<rparr>"

text \<open>A cache with the default options, one of capacity 3, and one asked for with \<^verbatim>\<open>maxSize: 0\<close>.\<close>

definition cache_default :: "(string, string) Cache" where
  "cache_default = new_Cache \<lparr> opt_maxSize = None, opt_defaultTTL = None \<rparr>"

definition cache3 :: "(string, nat) Cache" where
  "cache3 = new_Cache \<lparr> opt_maxSize = Some 3, opt_defaultTTL = None \<rparr>"

definition cache0 :: "(string, string) Cache" where
  "cache0 = new_Cache \<lparr> opt_maxSize = Some 0, opt_defaultTTL = None \<rparr>"

section \<open>Facts about insertion-ordered maps and the cache\<close>

lemma map_has_set [simp]: "map_has (map_set m k v) k"
  by (induction m k v rule: map_set.induct) (auto simp: map_has_def)

lemma map_get_set [simp]: "map_get (map_set m k v) k = Some v"
  by (induction m k v rule: map_set.induct) (auto simp: map_get_def)

lemma keys_map_set:
  "map fst (map_set m k v) = (if k \<in> set (map fst m) then map fst m else map fst m @ [k])"
  by (induction m k v rule: map_set.induct) auto

lemma length_map_set_le: "length (map_set m k v) \<le> Suc (length m)"
  by (induction m k v rule: map_set.induct) auto

lemma keys_map_delete_hd:
  "distinct (map fst ((a, b) # m)) \<Longrightarrow> map_delete ((a, b) # m) a = m"
  by (auto simp: map_delete_def filter_id_conv rev_image_eqI)


lemma maxSize_cache_set [simp]: "maxSize (cache_set c k v ttl now) = maxSize c"
  by (simp add: cache_set_def cache_delete_def Let_def split: option.splits)

lemma defaultTTL_cache_set [simp]: "defaultTTL (cache_set c k v ttl now) = defaultTTL c"
  by (simp add: cache_set_def cache_delete_def Let_def split: option.splits)

lemma length_map_delete_hd: "length (map_delete ((a, b) # m) a) \<le> length m"
  by (simp add: map_delete_def)

lemma keys_map_delete: "map fst (map_delete m k) = filter (\<lambda>x. x \<noteq> k) (map fst m)"
  by (induction m) (auto simp: map_delete_def)

lemma distinct_map_set: "distinct (map fst m) \<Longrightarrow> distinct (map fst (map_set m k v))"
  by (simp add: keys_map_set)

lemma distinct_map_delete: "distinct (map fst m) \<Longrightarrow> distinct (map fst (map_delete m k))"
  by (simp add: keys_map_delete)

text \<open>The keys after one set, below capacity and at capacity.\<close>

lemma keys_cache_set_below:
  "int (length (cache c)) < maxSize c \<Longrightarrow>
   map fst (cache (cache_set c k v ttl now)) =
     (if k \<in> set (map fst (cache c)) then map fst (cache c) else map fst (cache c) @ [k])"
  by (simp add: cache_set_def Let_def keys_map_set)

lemma keys_cache_set_full:
  assumes "maxSize c \<le> int (length (cache c))" and "cache c \<noteq> []"
    and "distinct (map fst (cache c))"
  shows "map fst (cache (cache_set c k v ttl now)) =
     (let rest = tl (map fst (cache c)) in if k \<in> set rest then rest else rest @ [k])"
proof -
  obtain a b m where m: "cache c = (a, b) # m"
    using assms(2) by (cases "cache c") auto
  have "map_delete (cache c) a = m"
    using assms(3) unfolding m by (rule keys_map_delete_hd)
  then show ?thesis
    using assms(1) m
    by (simp add: cache_set_def Let_def map_first_key_def cache_delete_def keys_map_set)
qed

lemma size_cache_set_le:
  assumes "0 < maxSize c" and "int (length (cache c)) \<le> maxSize c"
  shows "int (length (cache (cache_set c k v ttl now))) \<le> maxSize c"
proof (cases "maxSize c \<le> int (length (cache c))")
  case True
  then obtain a b m where m: "cache c = (a, b) # m"
    using assms(1) by (cases "cache c") auto
  have "length (map_delete (cache c) a) \<le> length m"
    unfolding m by (rule length_map_delete_hd)
  moreover have "length (map_set (map_delete (cache c) a) k v) \<le> Suc (length (map_delete (cache c) a))"
    by (rule length_map_set_le)
  ultimately show ?thesis
    using True assms(2) m
    by (simp add: cache_set_def Let_def map_first_key_def cache_delete_def)
next
  case False
  then show ?thesis
    using length_map_set_le [of "cache c" k v]
    by (simp add: cache_set_def Let_def)
qed

lemma size_set_all_le:
  "0 < maxSize c \<Longrightarrow> int (length (cache c)) \<le> maxSize c \<Longrightarrow>
   int (length (cache (set_all c calls))) \<le> maxSize c"
proof (induction calls arbitrary: c)
  case Nil
  then show ?case by simp
next
  case (Cons x calls)
  obtain k v ttl now where x: "x = (k, v, ttl, now)" by (cases x) auto
  have "int (length (cache (set_all (cache_set c k v ttl now) calls)))
          \<le> maxSize (cache_set c k v ttl now)"
    by (rule Cons.IH) (simp_all add: Cons.prems size_cache_set_le)
  then show ?case by (simp add: x)
qed

lemma distinct_cache_set:
  "distinct (map fst (cache c)) \<Longrightarrow> distinct (map fst (cache (cache_set c k v ttl now)))"
  by (simp add: cache_set_def Let_def cache_delete_def distinct_map_set distinct_map_delete
      split: option.splits)

lemma keys_set_all_distinct:
  assumes "0 < maxSize c" and "int (length (cache c)) \<le> maxSize c"
    and "distinct (map fst (cache c) @ map fst calls)"
  shows "map fst (cache (set_all c calls)) =
     drop (length (cache c) + length calls - nat (maxSize c)) (map fst (cache c) @ map fst calls)"
  using assms
proof (induction calls arbitrary: c)
  case Nil
  then show ?case by simp
next
  case (Cons x calls)
  obtain k v ttl now where x: "x = (k, v, ttl, now)" by (cases x) auto
  let ?c1 = "cache_set c k v ttl now"
  let ?ks = "map fst (cache c)"
  have knew: "k \<notin> set ?ks" and dks: "distinct ?ks"
    using Cons.prems(3) by (auto simp: x)
  show ?case
  proof (cases "maxSize c \<le> int (length (cache c))")
    case True
    then have ne: "cache c \<noteq> []" using Cons.prems(1) by auto
    have full: "length (cache c) = nat (maxSize c)"
      using True Cons.prems(2) by simp
    have "k \<notin> set (tl ?ks)"
      using knew ne by (cases "cache c") auto
    then have k1: "map fst (cache ?c1) = tl ?ks @ [k]"
      using keys_cache_set_full [OF True ne dks, of k v ttl now]
      by (simp add: Let_def)
    have len1: "length (cache ?c1) = length (cache c)"
      using arg_cong [OF k1, of length] ne by simp
    have d1: "distinct (map fst (cache ?c1) @ map fst calls)"
      using Cons.prems(3) ne unfolding k1 by (cases "cache c") (auto simp: x)
    have "map fst (cache (set_all ?c1 calls)) =
        drop (length (cache ?c1) + length calls - nat (maxSize ?c1))
          (map fst (cache ?c1) @ map fst calls)"
    proof (rule Cons.IH)
      show "0 < maxSize ?c1" by (simp add: Cons.prems)
      show "int (length (cache ?c1)) \<le> maxSize ?c1" by (simp add: len1 Cons.prems)
      show "distinct (map fst (cache ?c1) @ map fst calls)" by (rule d1)
    qed
    moreover have "length (cache ?c1) + length calls - nat (maxSize ?c1) = length calls"
      using len1 full by simp
    moreover have "length (cache c) + length (x # calls) - nat (maxSize c) = Suc (length calls)"
      using full by simp
    moreover have "drop (Suc (length calls)) (?ks @ map fst (x # calls)) =
        drop (length calls) ((tl ?ks @ [k]) @ map fst calls)"
      using ne by (cases "cache c") (simp_all add: x)
    ultimately show ?thesis
      by (simp only: x set_all.simps k1)
  next
    case False
    have k1: "map fst (cache ?c1) = ?ks @ [k]"
      using keys_cache_set_below [of c k v ttl now] False knew by simp
    have len1: "length (cache ?c1) = Suc (length (cache c))"
      using arg_cong [OF k1, of length] by simp
    have d1: "distinct (map fst (cache ?c1) @ map fst calls)"
      using Cons.prems(3) unfolding k1 by (auto simp: x)
    have "map fst (cache (set_all ?c1 calls)) =
        drop (length (cache ?c1) + length calls - nat (maxSize ?c1))
          (map fst (cache ?c1) @ map fst calls)"
    proof (rule Cons.IH)
      show "0 < maxSize ?c1" by (simp add: Cons.prems)
      show "int (length (cache ?c1)) \<le> maxSize ?c1" using False by (simp add: len1)
      show "distinct (map fst (cache ?c1) @ map fst calls)" by (rule d1)
    qed
    then show ?thesis
      by (simp add: x k1 len1)
  qed
qed

lemma cache_get_hit_unchanged:
  "fst (cache_get c k now) \<noteq> None \<Longrightarrow> snd (cache_get c k now) = c"
  by (auto simp: cache_get_def Let_def split: if_splits option.splits)


lemma map_has_delete [simp]: "\<not> map_has (map_delete m k) k"
  by (auto simp: map_has_def map_delete_def)

lemma map_get_Some_if_has: "map_has m k \<Longrightarrow> map_get m k \<noteq> None"
  by (simp add: map_has_def map_get_def map_of_eq_None_iff)

lemma cache_has_set: "cache_has (cache_set c k v ttl now) k"
  by (simp add: cache_has_def cache_set_def Let_def)

lemma cache_get_set_value: "map_get (cache (cache_set c k v ttl now)) k = Some v"
  by (simp add: cache_set_def Let_def)

lemma cache_get_set_timestamp:
  "map_get (timestamps (cache_set c k v ttl now)) k = Some (now + num_or ttl (defaultTTL c))"
  by (simp add: cache_set_def Let_def cache_delete_def split: option.splits)

lemma get_after_set:
  "fst (cache_get (cache_set c k v ttl now) k now') =
     (if now + num_or ttl (defaultTTL c) \<noteq> 0 \<and> now' > now + num_or ttl (defaultTTL c)
      then None else Some v)"
  using cache_has_set [of c k v ttl now]
  by (simp add: cache_get_def cache_has_def cache_get_set_value cache_get_set_timestamp)

section \<open>Facts about the cache methods as calls\<close>

lemma cache_wf_delete: "cache_wf c \<Longrightarrow> cache_wf (cache_delete c k)"
  by (simp add: cache_wf_def cache_delete_def map_keys_def keys_map_delete)

lemma cache_wf_store:
  "cache_wf c \<Longrightarrow>
   cache_wf (c\<lparr> cache := map_set (cache c) k v, timestamps := map_set (timestamps c) k t \<rparr>)"
  by (simp add: cache_wf_def map_keys_def keys_map_set)

lemma cache_wf_set:
  assumes "cache_wf c"
  shows "cache_wf (cache_set c k v ttl now)"
proof -
  define c1 where "c1 = (if int (length (cache c)) \<ge> maxSize c
                then (case map_first_key (cache c) of
                        None \<Rightarrow> c
                      | Some firstKey \<Rightarrow> cache_delete c firstKey)
                else c)"
  have "cache_wf c1"
    unfolding c1_def using assms by (simp add: cache_wf_delete split: option.splits)
  then have "cache_wf (c1\<lparr> cache := map_set (cache c1) k v,
      timestamps := map_set (timestamps c1) k (now + num_or ttl (defaultTTL c1)) \<rparr>)"
    by (rule cache_wf_store)
  then show ?thesis
    by (simp add: cache_set_def c1_def Let_def)
qed

lemma cache_wf_get: "cache_wf c \<Longrightarrow> cache_wf (snd (cache_get c k now))"
  by (auto simp: cache_get_def Let_def cache_wf_delete split: option.splits)

lemma cache_wf_perform:
  assumes "cache_wf c" and "perform c call = Inr (reply, c')"
  shows "cache_wf c'"
proof (cases call)
  case (Call_set k v ttl now)
  then show ?thesis using assms by (auto simp: cache_wf_set)
next
  case (Call_get k now)
  then show ?thesis using assms cache_wf_get [of c k now] by auto
next
  case (Call_delete k)
  then show ?thesis using assms by (auto simp: cache_wf_delete)
next
  case Call_clear
  then show ?thesis using assms by (auto simp: cache_clear_def cache_wf_def map_keys_def)
qed (use assms in auto)

lemma perform_returns: "\<exists>reply c'. perform c call = Inr (reply, c')"
  by (cases call) simp_all


lemma cache_delete_absent:
  assumes "cache_wf c" and "\<not> cache_has c k"
  shows "cache_delete c k = c"
proof -
  have "k \<notin> set (map fst (cache c))" and "k \<notin> set (map fst (timestamps c))"
    using assms by (simp_all add: cache_wf_def cache_has_def map_has_def map_keys_def)
  then have "map_delete (cache c) k = cache c" and "map_delete (timestamps c) k = timestamps c"
    by (auto simp: map_delete_def filter_id_conv)
  then show ?thesis
    by (simp add: cache_delete_def)
qed

section \<open>Facts about the error handler\<close>

lemma map_get_delete [simp]: "map_get (map_delete m k) k = None"
  by (induction m) (auto simp: map_get_def map_delete_def)

lemma getRetryCount_reset [simp]: "getRetryCount (resetRetryCount rc k) k = 0"
  by (simp add: getRetryCount_def resetRetryCount_def)

lemma getRetryCount_increment [simp]:
  "getRetryCount (incrementRetryCount rc k) k = getRetryCount rc k + 1"
  by (simp add: getRetryCount_def incrementRetryCount_def Let_def)

lemma level_name_not_member: "level_name level \<notin> set logger_member_names"
  by (cases level) (simp_all add: logger_member_names_def Object_prototype_names_def)

lemma call_logger_throws:
  "call_logger callee level = Some (new_TypeError (callee @ '' is not a function''))"
  by (simp add: call_logger_def level_name_not_member)

lemma handleApiError_throws:
  "handleApiError e ctx opts has_callback now rc =
     (Throw (new_TypeError ''logger[opts.logLevel] is not a function''), rc)"
  by (simp add: handleApiError_def call_logger_throws)

lemma handle_each_throws:
  "handle_each es ctx opts has_callback now rc =
     (map (\<lambda>e. Throw (new_TypeError ''logger[opts.logLevel] is not a function'')) es, rc)"
  by (induction es) (simp_all add: handleApiError_throws)

lemma ERROR_CODES_object_lookup:
  "get_prop ERROR_CODES_object name =
     (case map_of ERROR_CODES name of None \<Rightarrow> inherited name | Some c \<Rightarrow> Value (JStr c))"
  by (simp add: ERROR_CODES_object_def map_of_map split: option.splits)



text \<open>A name inherited from \<^verbatim>\<open>Object.prototype\<close> passes for a retryable code.\<close>

lemma shouldRetry_inherited: "shouldRetry ''constructor'' 3"
  by (simp add: shouldRetry_def RETRY_CONFIG_def inherited_def Object_prototype_names_def)

text \<open>The definitions a concrete run of the cache unfolds.\<close>

lemmas cache_eval =
  new_Cache_def num_or_def cache_set_def cache_get_def cache_has_def cache_size_def
  cache_delete_def map_first_key_def map_has_def map_get_def map_delete_def map_keys_def Let_def

text \<open>The definitions a concrete run of the handler unfolds.\<close>

lemmas error_eval =
  new_Error_def new_TypeError_def new_FCAError_def new_NetworkError_def new_ValidationError_def
  new_SecurityError_def fca_init_def default_details_def

lemmas example_eval =
  timeout_error_def retry_options_def default_options_def

section \<open>The cache: capacity and eviction order\<close>

text \<open>
  C1. A cache whose \<^verbatim>\<open>maxSize\<close> is positive and that holds at most \<^verbatim>\<open>maxSize\<close> entries
  (as a new cache does) still holds at most \<^verbatim>\<open>maxSize\<close> entries after any sequence of
  \<^verbatim>\<open>set\<close> calls. One \<^verbatim>\<open>set\<close> below capacity evicts nothing and puts a new key last; one
  \<^verbatim>\<open>set\<close> at capacity removes exactly the first key of the insertion order and then puts
  the key last if it is not among the remaining ones. After \<^verbatim>\<open>set\<close> calls with pairwise
  distinct new keys the stored keys are the last \<^verbatim>\<open>maxSize\<close> keys in the order of their
  insertion, so the evicted ones are the oldest-inserted, and \<^verbatim>\<open>size()\<close> equals \<^verbatim>\<open>maxSize\<close>
  once that many keys have come in. A \<^verbatim>\<open>get\<close> that returns a value leaves the cache as it
  was, so reading a key has no influence on what is evicted.
\<close>

theorem capacity_bound_and_oldest_first_eviction:
  fixes c :: "('k, 'v) Cache"
  assumes "0 < maxSize c" and "int (cache_size c) \<le> maxSize c"
    and "distinct (map_keys (cache c))"
  shows "int (cache_size (set_all c calls)) \<le> maxSize c
    \<and> (int (cache_size c) < maxSize c \<longrightarrow>
         map_keys (cache (cache_set c k v ttl now)) =
           (if k \<in> set (map_keys (cache c)) then map_keys (cache c)
            else map_keys (cache c) @ [k]))
    \<and> (int (cache_size c) = maxSize c \<longrightarrow>
         map_keys (cache (cache_set c k v ttl now)) =
           (let rest = tl (map_keys (cache c)) in if k \<in> set rest then rest else rest @ [k]))
    \<and> (distinct (map_keys (cache c) @ map fst calls) \<longrightarrow>
         map_keys (cache (set_all c calls)) =
           drop (cache_size c + length calls - nat (maxSize c))
             (map_keys (cache c) @ map fst calls)
         \<and> (nat (maxSize c) \<le> cache_size c + length calls \<longrightarrow>
              cache_size (set_all c calls) = nat (maxSize c)))
    \<and> (fst (cache_get c k' t) \<noteq> None \<longrightarrow> snd (cache_get c k' t) = c)"
proof -
  have pos: "0 < maxSize c" and le: "int (length (cache c)) \<le> maxSize c"
    and dist: "distinct (map fst (cache c))"
    using assms by (simp_all add: cache_size_def map_keys_def)
  have a: "int (cache_size (set_all c calls)) \<le> maxSize c"
    unfolding cache_size_def by (rule size_set_all_le [OF pos le])
  have b: "int (cache_size c) < maxSize c \<longrightarrow>
         map_keys (cache (cache_set c k v ttl now)) =
           (if k \<in> set (map_keys (cache c)) then map_keys (cache c)
            else map_keys (cache c) @ [k])"
    unfolding cache_size_def map_keys_def using keys_cache_set_below [of c k v ttl now] by simp
  have c: "int (cache_size c) = maxSize c \<longrightarrow>
         map_keys (cache (cache_set c k v ttl now)) =
           (let rest = tl (map_keys (cache c)) in if k \<in> set rest then rest else rest @ [k])"
  proof
    assume full: "int (cache_size c) = maxSize c"
    then have "maxSize c \<le> int (length (cache c))" and "cache c \<noteq> []"
      using pos by (auto simp: cache_size_def)
    then show "map_keys (cache (cache_set c k v ttl now)) =
           (let rest = tl (map_keys (cache c)) in if k \<in> set rest then rest else rest @ [k])"
      unfolding map_keys_def using dist by (rule keys_cache_set_full)
  qed
  have d: "distinct (map_keys (cache c) @ map fst calls) \<longrightarrow>
         map_keys (cache (set_all c calls)) =
           drop (cache_size c + length calls - nat (maxSize c))
             (map_keys (cache c) @ map fst calls)
         \<and> (nat (maxSize c) \<le> cache_size c + length calls \<longrightarrow>
              cache_size (set_all c calls) = nat (maxSize c))"
  proof
    assume "distinct (map_keys (cache c) @ map fst calls)"
    then have dd: "distinct (map fst (cache c) @ map fst calls)"
      by (simp add: map_keys_def)
    have keys: "map fst (cache (set_all c calls)) =
        drop (length (cache c) + length calls - nat (maxSize c))
          (map fst (cache c) @ map fst calls)"
      by (rule keys_set_all_distinct [OF pos le dd])
    have "length (map fst (cache (set_all c calls))) =
        length (drop (length (cache c) + length calls - nat (maxSize c))
          (map fst (cache c) @ map fst calls))"
      by (simp only: keys)
    then have len: "length (cache (set_all c calls)) =
        (length (cache c) + length calls) - (length (cache c) + length calls - nat (maxSize c))"
      by (simp only: length_drop length_append length_map)
    have "length (cache (set_all c calls)) = nat (maxSize c)"
      if "nat (maxSize c) \<le> length (cache c) + length calls"
      using len that by arith
    then show "map_keys (cache (set_all c calls)) =
           drop (cache_size c + length calls - nat (maxSize c))
             (map_keys (cache c) @ map fst calls)
         \<and> (nat (maxSize c) \<le> cache_size c + length calls \<longrightarrow>
              cache_size (set_all c calls) = nat (maxSize c))"
      using keys by (simp add: map_keys_def cache_size_def)
  qed
  have e: "fst (cache_get c k' t) \<noteq> None \<longrightarrow> snd (cache_get c k' t) = c"
    using cache_get_hit_unchanged [of c k' t] by blast
  from a b c d e show ?thesis by blast
qed

theorem capacity_bound_and_oldest_first_eviction_witness:
  "0 < maxSize cache2 \<and> int (cache_size cache2) \<le> maxSize cache2
   \<and> distinct (map_keys (cache cache2))
   \<and> distinct (map_keys (cache cache2) @ map fst [(''a'', 1::nat, None::int option, 10::int), (''b'', 2, None, 20), (''c'', 3, None, 30)])
   \<and> map_keys (cache (set_all cache2 [(''a'', 1, None, 10), (''b'', 2, None, 20), (''c'', 3, None, 30)]))
       = [''b'', ''c'']
   \<and> cache_size (set_all cache2 [(''a'', 1, None, 10), (''b'', 2, None, 20), (''c'', 3, None, 30)]) = 2
   \<and> int (cache_size (set_all cache2 [(''a'', 1, None, 10), (''b'', 2, None, 20)])) = maxSize cache2
   \<and> map_keys (cache (set_all cache2 [(''a'', 1, None, 10), (''b'', 2, None, 20)])) = [''a'', ''b'']
   \<and> fst (cache_get (set_all cache2 [(''a'', 1, None, 10), (''b'', 2, None, 20)]) ''a'' 50)
       = Some 1
   \<and> map_keys (cache (cache_set (set_all cache2 [(''a'', 1, None, 10), (''b'', 2, None, 20)])
        ''c'' 3 None 60)) = [''b'', ''c'']"
  using capacity_bound_and_oldest_first_eviction
      [of cache2 "[(''a'', 1, None, 10), (''b'', 2, None, 20), (''c'', 3, None, 30)]"
          "''d''" 4 None 40 "''a''" 50]
    capacity_bound_and_oldest_first_eviction
      [of "set_all cache2 [(''a'', 1, None, 10), (''b'', 2, None, 20)]" "[]"
          "''c''" 3 None 60 "''a''" 50]
  by (simp add: cache2_def cache_eval)

section \<open>The cache: \<^verbatim>\<open>has\<close> and expiry\<close>

text \<open>
  C2, as stated, fails: \<^verbatim>\<open>has\<close> does not look at the expiry time. An entry set at time 1000
  with a TTL of 50 is still reported by \<^verbatim>\<open>has\<close>, at whatever time, while \<^verbatim>\<open>get\<close> at time 2000
  returns nothing.
\<close>

theorem has_ignores_expiry_counterexample:
  "cache_has (cache_set cache_default ''key1'' ''value1'' (Some 50) 1000) ''key1''
   \<and> fst (cache_get (cache_set cache_default ''key1'' ''value1'' (Some 50) 1000) ''key1'' 2000) = None"
  by (simp add: cache_default_def cache_eval)

text \<open>
  C2, amended. \<^verbatim>\<open>has(k)\<close> says whether \<^verbatim>\<open>k\<close> is stored, expired or not, and changes
  nothing: it is true right after \<^verbatim>\<open>set(k, ...)\<close>, and once a \<^verbatim>\<open>get(k)\<close> has run it is true
  exactly when that \<^verbatim>\<open>get\<close> returned a value (an expired entry is deleted by the \<^verbatim>\<open>get\<close>, not
  by \<^verbatim>\<open>has\<close>).
\<close>

theorem has_is_raw_presence:
  "cache_has c k = (k \<in> set (map_keys (cache c)))
   \<and> cache_has (cache_set c k v ttl now) k
   \<and> cache_has (snd (cache_get c k t)) k = (fst (cache_get c k t) \<noteq> None)"
proof -
  have "cache_has (snd (cache_get c k t)) k = (fst (cache_get c k t) \<noteq> None)"
    using map_get_Some_if_has [of "cache c" k]
    by (auto simp: cache_get_def cache_has_def cache_delete_def Let_def split: option.splits)
  then show ?thesis
    by (simp add: cache_has_set) (simp add: cache_has_def map_has_def map_keys_def)
qed

theorem has_is_raw_presence_witness:
  "cache_has (cache_set cache_default ''key1'' ''value1'' (Some 50) 1000) ''key1''
   \<and> fst (cache_get (cache_set cache_default ''key1'' ''value1'' (Some 50) 1000) ''key1'' 1020)
       = Some ''value1''
   \<and> cache_has (snd (cache_get (cache_set cache_default ''key1'' ''value1'' (Some 50) 1000)
        ''key1'' 1020)) ''key1''
   \<and> fst (cache_get (cache_set cache_default ''key1'' ''value1'' (Some 50) 1000) ''key1'' 2000)
       = None
   \<and> \<not> cache_has (snd (cache_get (cache_set cache_default ''key1'' ''value1'' (Some 50) 1000)
        ''key1'' 2000)) ''key1''"
  using has_is_raw_presence
      [of "cache_set cache_default ''key1'' ''value1'' (Some 50) 1000" "''key1''" "''value1''"
          None 1000 1020]
    has_is_raw_presence
      [of "cache_set cache_default ''key1'' ''value1'' (Some 50) 1000" "''key1''" "''value1''"
          None 1000 2000]
  by (simp add: cache_default_def cache_eval)

section \<open>The cache: overwriting a key\<close>

text \<open>
  C5, as stated, fails. With capacity 3, after \<^verbatim>\<open>set a\<close>, \<^verbatim>\<open>set b\<close>, \<^verbatim>\<open>set a\<close> the key
  \<^verbatim>\<open>a\<close> is still first in the eviction order, and after two more keys it is \<^verbatim>\<open>a\<close> that has been
  evicted, not \<^verbatim>\<open>b\<close>.
\<close>

theorem overwrite_keeps_position_counterexample:
  "map_keys (cache (set_all cache3 [(''a'', 1, None, 10), (''b'', 2, None, 20), (''a'', 3, None, 30)]))
     = [''a'', ''b'']
   \<and> map_keys (cache (set_all cache3 [(''a'', 1, None, 10), (''b'', 2, None, 20), (''a'', 3, None, 30),
        (''c'', 4, None, 40), (''d'', 5, None, 50)])) = [''b'', ''c'', ''d'']"
  by (simp add: cache3_def cache_eval)

text \<open>
  C5, amended. \<^verbatim>\<open>set(k, v, ttl)\<close> on a key that is already stored replaces its value and its
  expiry time. Below capacity the eviction order is unchanged: \<^verbatim>\<open>k\<close> keeps the place of its
  first insertion. At capacity the oldest key is evicted first, and \<^verbatim>\<open>k\<close> becomes the newest
  entry only when it was that oldest key.
\<close>

theorem overwrite_keeps_position:
  fixes c :: "('k, 'v) Cache"
  assumes "cache_has c k"
  shows "map_get (cache (cache_set c k v ttl now)) k = Some v
    \<and> map_get (timestamps (cache_set c k v ttl now)) k = Some (now + num_or ttl (defaultTTL c))
    \<and> (int (cache_size c) < maxSize c \<longrightarrow>
         map_keys (cache (cache_set c k v ttl now)) = map_keys (cache c))
    \<and> (int (cache_size c) = maxSize c \<and> distinct (map_keys (cache c)) \<longrightarrow>
         map_keys (cache (cache_set c k v ttl now)) =
           (if k = hd (map_keys (cache c)) then tl (map_keys (cache c)) @ [k]
            else tl (map_keys (cache c))))"
proof -
  have kin: "k \<in> set (map fst (cache c))"
    using assms by (simp add: cache_has_def map_has_def)
  then have ne: "cache c \<noteq> []" by auto
  have below: "int (cache_size c) < maxSize c \<longrightarrow>
         map_keys (cache (cache_set c k v ttl now)) = map_keys (cache c)"
    unfolding cache_size_def map_keys_def
    using keys_cache_set_below [of c k v ttl now] kin by simp
  have full: "int (cache_size c) = maxSize c \<and> distinct (map_keys (cache c)) \<longrightarrow>
         map_keys (cache (cache_set c k v ttl now)) =
           (if k = hd (map_keys (cache c)) then tl (map_keys (cache c)) @ [k]
            else tl (map_keys (cache c)))"
  proof
    assume a: "int (cache_size c) = maxSize c \<and> distinct (map_keys (cache c))"
    then have le: "maxSize c \<le> int (length (cache c))" and d: "distinct (map fst (cache c))"
      by (simp_all add: cache_size_def map_keys_def)
    have mem: "k \<in> set (tl (map fst (cache c))) \<longleftrightarrow> k \<noteq> hd (map fst (cache c))"
      using kin d ne by (cases "cache c") force+
    show "map_keys (cache (cache_set c k v ttl now)) =
           (if k = hd (map_keys (cache c)) then tl (map_keys (cache c)) @ [k]
            else tl (map_keys (cache c)))"
      unfolding map_keys_def
      using keys_cache_set_full [OF le ne d, of k v ttl now] mem
      by (simp add: Let_def)
  qed
  show ?thesis
    using below full cache_get_set_value [of c k v ttl now]
      cache_get_set_timestamp [of c k v ttl now]
    by blast
qed

theorem overwrite_keeps_position_witness:
  "cache_has (set_all cache3 [(''a'', 1, None, 10), (''b'', 2, None, 20)]) ''a''
   \<and> map_get (cache (set_all cache3 [(''a'', 1, None, 10), (''b'', 2, None, 20), (''a'', 3, None, 30)])) ''a'' = Some 3
   \<and> map_keys (cache (set_all cache3 [(''a'', 1, None, 10), (''b'', 2, None, 20), (''a'', 3, None, 30)]))
       = [''a'', ''b'']"
  using overwrite_keeps_position
    [of "set_all cache3 [(''a'', 1, None, 10), (''b'', 2, None, 20)]" "''a''" 3 None 30]
  by (simp add: cache3_def cache_eval)

section \<open>The cache: totality, and a \<^verbatim>\<open>maxSize\<close> of zero\<close>

text \<open>
  C6, as stated, fails: a cache constructed with \<^verbatim>\<open>maxSize: 0\<close> keeps what is set.
\<close>

theorem capacity_zero_retains_counterexample:
  "cache_size (cache_set cache0 ''key1'' ''value1'' None 1000) = 1
   \<and> fst (cache_get (cache_set cache0 ''key1'' ''value1'' None 1000) ''key1'' 1000) = Some ''value1''"
  by (simp add: cache0_def cache_eval)

text \<open>
  C6, amended. Every cache operation is a total function over its domain: on every cache
  each of \<^verbatim>\<open>set\<close>, \<^verbatim>\<open>get\<close>, \<^verbatim>\<open>has\<close>, \<^verbatim>\<open>delete\<close>, \<^verbatim>\<open>clear\<close>, \<^verbatim>\<open>size\<close> and \<^verbatim>\<open>stats\<close>
  returns (no call ends in an error), and it leaves a cache whose two maps hold the same
  keys, each once, as the constructor's cache does. In the edge cases: a \<^verbatim>\<open>set\<close> on an
  empty cache finds no key to evict and stores the entry; a \<^verbatim>\<open>get\<close> of a key that is not
  stored returns nothing and changes nothing; a \<^verbatim>\<open>delete\<close> of such a key changes nothing;
  after \<^verbatim>\<open>delete(k)\<close> the key is gone; after \<^verbatim>\<open>clear()\<close> the size is 0; \<^verbatim>\<open>stats()\<close> reports
  the size, \<^verbatim>\<open>maxSize\<close> and \<^verbatim>\<open>defaultTTL\<close>.
  The constructor reads \<^verbatim>\<open>maxSize: 0\<close> as "not given" and takes the default 1000, so one
  \<^verbatim>\<open>set\<close> on the new cache leaves one entry. Whatever \<^verbatim>\<open>maxSize\<close> a cache has, the entry just
  set is stored: \<^verbatim>\<open>has\<close> is true for it and \<^verbatim>\<open>size()\<close> is at least 1.
\<close>

theorem maxSize_zero_is_default_capacity:
  fixes c :: "('k, 'v) Cache"
  shows "(opt_maxSize options = Some 0 \<longrightarrow>
      maxSize (new_Cache options :: ('k, 'v) Cache) = 1000
      \<and> cache_size (cache_set (new_Cache options :: ('k, 'v) Cache) k v ttl now) = 1)
    \<and> cache_has (cache_set c k v ttl now) k
    \<and> 1 \<le> cache_size (cache_set c k v ttl now)
    \<and> (\<exists>reply c'. perform c call = Inr (reply, c'))
    \<and> (cache_wf c \<and> perform c call = Inr (reply, c') \<longrightarrow> cache_wf c')
    \<and> cache_wf (new_Cache options :: ('k, 'v) Cache)
    \<and> (cache c = [] \<longrightarrow> cache_size (cache_set c k v ttl now) = 1)
    \<and> (\<not> cache_has c k \<longrightarrow> cache_get c k now = (None, c))
    \<and> (cache_wf c \<and> \<not> cache_has c k \<longrightarrow> cache_delete c k = c)
    \<and> \<not> cache_has (cache_delete c k) k
    \<and> cache_size (cache_clear c) = 0
    \<and> stats c = \<lparr> stats_size = cache_size c, stats_maxSize = maxSize c,
                    stats_defaultTTL = defaultTTL c \<rparr>"
proof -
  have has: "cache_has (cache_set c k v ttl now) k"
    by (rule cache_has_set)
  then have "cache (cache_set c k v ttl now) \<noteq> []"
    by (auto simp: cache_has_def map_has_def)
  then have one: "1 \<le> cache_size (cache_set c k v ttl now)"
    by (cases "cache (cache_set c k v ttl now)") (simp_all add: cache_size_def)
  have zero: "opt_maxSize options = Some 0 \<longrightarrow>
      maxSize (new_Cache options :: ('k, 'v) Cache) = 1000
      \<and> cache_size (cache_set (new_Cache options :: ('k, 'v) Cache) k v ttl now) = 1"
    by (simp add: new_Cache_def num_or_def cache_set_def cache_size_def Let_def)
  have total: "\<exists>reply c'. perform c call = Inr (reply, c')"
    by (rule perform_returns)
  have wf: "cache_wf c \<and> perform c call = Inr (reply, c') \<longrightarrow> cache_wf c'"
    using cache_wf_perform [of c call reply c'] by blast
  have wf0: "cache_wf (new_Cache options :: ('k, 'v) Cache)"
    by (simp add: cache_wf_def new_Cache_def map_keys_def)
  have empty: "cache c = [] \<longrightarrow> cache_size (cache_set c k v ttl now) = 1"
    by (simp add: cache_set_def cache_size_def Let_def map_first_key_def)
  have absent: "\<not> cache_has c k \<longrightarrow> cache_get c k now = (None, c)"
    by (simp add: cache_get_def cache_has_def)
  have del: "cache_wf c \<and> \<not> cache_has c k \<longrightarrow> cache_delete c k = c"
    using cache_delete_absent [of c k] by blast
  have gone: "\<not> cache_has (cache_delete c k) k"
    by (simp add: cache_has_def cache_delete_def)
  have clear: "cache_size (cache_clear c) = 0"
    by (simp add: cache_size_def cache_clear_def)
  have st: "stats c = \<lparr> stats_size = cache_size c, stats_maxSize = maxSize c,
                    stats_defaultTTL = defaultTTL c \<rparr>"
    by (simp add: stats_def cache_size_def)
  from zero has one total wf wf0 empty absent del gone clear st show ?thesis
    by blast
qed

theorem maxSize_zero_is_default_capacity_witness:
  "opt_maxSize \<lparr> opt_maxSize = Some 0, opt_defaultTTL = None \<rparr> = Some 0
   \<and> maxSize cache0 = 1000
   \<and> cache_size (cache_set cache0 ''key1'' ''value1'' None 1000) = 1
   \<and> cache_has (cache_set cache0 ''key1'' ''value1'' None 1000) ''key1''
   \<and> cache_wf cache0
   \<and> perform cache0 (Call_delete ''key1'') = Inr (Returned_nothing, cache0)
   \<and> cache cache0 = []
   \<and> \<not> cache_has cache0 ''key1''
   \<and> cache_get cache0 ''key1'' 1000 = (None, cache0)
   \<and> cache_delete cache0 ''key1'' = cache0
   \<and> cache_wf (cache_set cache0 ''key1'' ''value1'' None 1000)"
  using maxSize_zero_is_default_capacity
      [of "\<lparr> opt_maxSize = Some 0, opt_defaultTTL = None \<rparr>" "''key1''" "''value1''" None 1000 cache0
        "Call_delete ''key1''" Returned_nothing cache0]
    maxSize_zero_is_default_capacity
      [of "\<lparr> opt_maxSize = Some 0, opt_defaultTTL = None \<rparr>" "''key1''" "''value1''" None 1000 cache0
        "Call_set ''key1'' ''value1'' None 1000" Returned_nothing
        "cache_set cache0 ''key1'' ''value1'' None 1000"]
  by (simp add: cache0_def cache_eval cache_wf_def)

section \<open>The cache: \<^verbatim>\<open>get\<close> right after \<^verbatim>\<open>set\<close>\<close>

text \<open>
  C10, as stated, fails for a TTL of zero: \<^verbatim>\<open>ttl || this.defaultTTL\<close> takes the default TTL,
  and the \<^verbatim>\<open>get\<close> returns the value.
\<close>

theorem zero_ttl_counterexample:
  "fst (cache_get (cache_set cache_default ''key1'' ''value1'' (Some 0) 1000) ''key1'' 1000)
     = Some ''value1''"
  by (simp add: cache_default_def cache_eval)

text \<open>
  C10, amended. After \<^verbatim>\<open>set(k, v, ttl)\<close> at time \<open>now\<close>, a \<^verbatim>\<open>get(k)\<close> at a time up to
  \<open>now + ttl\<close> returns \<^verbatim>\<open>v\<close> when \<^verbatim>\<open>ttl\<close> is positive; when \<^verbatim>\<open>ttl\<close> is negative (and
  \<open>now + ttl\<close> is not 0, which the expiry test reads as "no expiry") a \<^verbatim>\<open>get(k)\<close> at \<open>now\<close> or
  later returns nothing. A TTL of zero, like an omitted one, is replaced by the default TTL,
  so with a positive default TTL the immediate \<^verbatim>\<open>get\<close> returns \<^verbatim>\<open>v\<close>.
\<close>

theorem get_right_after_set:
  "(0 < ttl \<and> now' \<le> now + ttl \<longrightarrow>
      fst (cache_get (cache_set c k v (Some ttl) now) k now') = Some v)
   \<and> (ttl < 0 \<and> now + ttl \<noteq> 0 \<and> now \<le> now' \<longrightarrow>
      fst (cache_get (cache_set c k v (Some ttl) now) k now') = None)
   \<and> cache_set c k v (Some 0) now = cache_set c k v (Some (defaultTTL c)) now
   \<and> cache_set c k v None now = cache_set c k v (Some (defaultTTL c)) now
   \<and> (0 < defaultTTL c \<longrightarrow>
      fst (cache_get (cache_set c k v (Some 0) now) k now) = Some v)"
proof -
  have "cache_set c k v (Some 0) now = cache_set c k v (Some (defaultTTL c)) now"
    and "cache_set c k v None now = cache_set c k v (Some (defaultTTL c)) now"
    by (simp_all add: cache_set_def num_or_def Let_def cache_delete_def split: option.splits)
  then show ?thesis
    by (simp add: get_after_set num_or_def)
qed

theorem get_right_after_set_witness:
  "(0::int) < 50 \<and> (1000::int) \<le> 1000 + 50
   \<and> fst (cache_get (cache_set cache_default ''key1'' ''value1'' (Some 50) 1000) ''key1'' 1000)
       = Some ''value1''
   \<and> (-5::int) < 0 \<and> (1000::int) + (-5) \<noteq> 0
   \<and> fst (cache_get (cache_set cache_default ''key1'' ''value1'' (Some (-5)) 1000) ''key1'' 1000)
       = None
   \<and> 0 < defaultTTL cache_default
   \<and> fst (cache_get (cache_set cache_default ''key1'' ''value1'' (Some 0) 1000) ''key1'' 1000)
       = Some ''value1''"
  using get_right_after_set [of 50 1000 1000 cache_default "''key1''" "''value1''"]
    get_right_after_set [of "-5" 1000 1000 cache_default "''key1''" "''value1''"]
  by (simp add: cache_default_def new_Cache_def num_or_def)

section \<open>Safe error messages\<close>

text \<open>
  C3. Any two \<^verbatim>\<open>SecurityError\<close>s get the same safe message, the fixed sentence, whatever
  their own messages are; an \<^verbatim>\<open>FCAError\<close> of any other class gets its own message.
\<close>

theorem security_message_is_generic:
  "(instanceof e1 SecurityError \<and> instanceof e2 SecurityError \<longrightarrow>
      getSafeErrorMessage e1 = getSafeErrorMessage e2
      \<and> getSafeErrorMessage e1 =
          ''A security error occurred. Please check your credentials and try again.'')
   \<and> getSafeErrorMessage (new_SecurityError msg1 d1 t1) =
       getSafeErrorMessage (new_SecurityError msg2 d2 t2)
   \<and> (instanceof e FCAError \<and> \<not> instanceof e SecurityError \<longrightarrow>
        getSafeErrorMessage e = message e)"
proof -
  have sec: "instanceof x FCAError" if "instanceof x SecurityError" for x
    using that by (cases "cls x") (simp_all add: instanceof_def)
  show ?thesis
    using sec [of e1] sec [of e2]
    by (auto simp: getSafeErrorMessage_def) (simp_all add: instanceof_def error_eval)
qed

theorem security_message_is_generic_witness:
  "instanceof (new_SecurityError ''Decryption failed for key 1234'' JUndefined ''t1'') SecurityError
   \<and> instanceof (new_SecurityError ''Token abc rejected'' JUndefined ''t2'') SecurityError
   \<and> getSafeErrorMessage (new_SecurityError ''Decryption failed for key 1234'' JUndefined ''t1'') =
       getSafeErrorMessage (new_SecurityError ''Token abc rejected'' JUndefined ''t2'')
   \<and> instanceof (new_ValidationError ''Invalid input'' JUndefined ''t3'') FCAError
   \<and> \<not> instanceof (new_ValidationError ''Invalid input'' JUndefined ''t3'') SecurityError
   \<and> getSafeErrorMessage (new_ValidationError ''Invalid input'' JUndefined ''t3'') = ''Invalid input''"
  using security_message_is_generic
    [of "new_SecurityError ''Decryption failed for key 1234'' JUndefined ''t1''"
        "new_SecurityError ''Token abc rejected'' JUndefined ''t2''"
        "''m1''" JUndefined "''t1''" "''m2''" JUndefined "''t2''"
        "new_ValidationError ''Invalid input'' JUndefined ''t3''"]
  by (simp add: instanceof_def error_eval)

section \<open>The error response\<close>

text \<open>
  C4. For a \<^verbatim>\<open>ValidationError\<close> with message "Invalid input" and details
  \<^verbatim>\<open>{field: "name"}\<close>, \<^verbatim>\<open>createErrorResponse\<close> returns exactly the record with
  \<^verbatim>\<open>code: "VALIDATION_ERROR"\<close>, \<^verbatim>\<open>errorCode: "ERR_GENERAL_01"\<close>, the error's details and the
  timestamp the error got when it was constructed, whatever the clock says at the call.
  For every \<^verbatim>\<open>FCAError\<close> the catalog is read under the error's own \<^verbatim>\<open>code\<close>; a code string
  that is no catalog name (and no name that the table inherits from \<^verbatim>\<open>Object.prototype\<close>,
  such as \<^verbatim>\<open>constructor\<close>, which reads as the inherited member) gives \<^verbatim>\<open>ERR_GENERAL_01\<close>,
  while a catalog name such as \<^verbatim>\<open>VALIDATION_MISSING_PARAM\<close> gives its catalog code.
\<close>

theorem createErrorResponse_validation:
  "createErrorResponse
       (new_ValidationError ''Invalid input'' (JObj [(''field'', JStr ''name'')]) ts) now =
     \<lparr> resp_error = True,
       resp_message = JStr ''Invalid input'',
       resp_code = JStr ''VALIDATION_ERROR'',
       resp_errorCode = Value (JStr ''ERR_GENERAL_01''),
       resp_details = JObj [(''field'', JStr ''name'')],
       resp_timestamp = JStr ts \<rparr>
   \<and> timestamp (new_ValidationError ''Invalid input'' (JObj [(''field'', JStr ''name'')]) ts)
       = JStr ts
   \<and> (instanceof e FCAError \<longrightarrow>
        resp_code (createErrorResponse e now) = code_value (code e)
        \<and> resp_errorCode (createErrorResponse e now) = getErrorCode (code e)
        \<and> resp_timestamp (createErrorResponse e now) = timestamp e)
   \<and> (map_of ERROR_CODES s = None \<and> s \<notin> set Object_prototype_names \<longrightarrow>
        getErrorCode (Some s) = Value (JStr ''ERR_GENERAL_01''))
   \<and> getErrorCode (Some ''VALIDATION_MISSING_PARAM'') = Value (JStr ''ERR_VALIDATION_01'')
   \<and> getErrorCode (Some ''constructor'') = Builtin ''constructor''"
proof -
  have fallback: "getErrorCode (Some s) = Value (JStr ''ERR_GENERAL_01'')"
    if "map_of ERROR_CODES s = None" "s \<notin> set Object_prototype_names" for s
    using that
    by (simp add: getErrorCode_def property_key_def ERROR_CODES_object_lookup inherited_def
        UNKNOWN_ERROR_def)
  have kind: "map_of ERROR_CODES ''VALIDATION_ERROR'' = None"
    and notproto: "''VALIDATION_ERROR'' \<notin> set Object_prototype_names"
    by (simp_all add: ERROR_CODES_def Object_prototype_names_def)
  have catalog: "getErrorCode (Some ''VALIDATION_MISSING_PARAM'') = Value (JStr ''ERR_VALIDATION_01'')"
    by (simp add: getErrorCode_def property_key_def ERROR_CODES_object_lookup ERROR_CODES_def)
  have proto: "getErrorCode (Some ''constructor'') = Builtin ''constructor''"
    by (simp add: getErrorCode_def property_key_def ERROR_CODES_object_lookup ERROR_CODES_def
        inherited_def Object_prototype_names_def)
  show ?thesis
    using fallback [OF kind notproto] fallback [of s] catalog proto
    by (simp add: createErrorResponse_def instanceof_def error_eval code_value_def)
qed

theorem createErrorResponse_validation_witness:
  "instanceof (new_ValidationError ''Invalid input'' (JObj [(''field'', JStr ''name'')]) ''t1'') FCAError
   \<and> map_of ERROR_CODES ''VALIDATION_ERROR'' = None
   \<and> ''VALIDATION_ERROR'' \<notin> set Object_prototype_names
   \<and> resp_errorCode (createErrorResponse
        (new_ValidationError ''Invalid input'' (JObj [(''field'', JStr ''name'')]) ''t1'') ''t2'')
       = Value (JStr ''ERR_GENERAL_01'')
   \<and> resp_timestamp (createErrorResponse
        (new_ValidationError ''Invalid input'' (JObj [(''field'', JStr ''name'')]) ''t1'') ''t2'')
       = JStr ''t1''"
  using createErrorResponse_validation
    [of "''t1''" "''t2''"
        "new_ValidationError ''Invalid input'' (JObj [(''field'', JStr ''name'')]) ''t1''"
        "''VALIDATION_ERROR''"]
  by (simp add: ERROR_CODES_def Object_prototype_names_def instanceof_def error_eval)

section \<open>Retry bookkeeping per error code\<close>

text \<open>
  C7 does not hold of the code, by a defect of the code. The first statement of
  \<^verbatim>\<open>handleApiError\<close> that has an effect is \<^verbatim>\<open>logger[opts.logLevel](...)\<close>, and the logger the
  module requires has no such method, so every call of the handler throws a \<^verbatim>\<open>TypeError\<close>
  there: for every sequence of failures each outcome is that \<^verbatim>\<open>TypeError\<close> and the retry
  counts are what they were. With \<^verbatim>\<open>retry: true\<close> and an error that carries the code of
  \<^verbatim>\<open>NETWORK_TIMEOUT\<close> (a retryable code), four failures in a row give four \<^verbatim>\<open>TypeError\<close>s and
  no counter; and with the counter already at \<^verbatim>\<open>maxRetries\<close> the call neither resets it nor
  surfaces the original error.
\<close>

theorem retry_bookkeeping_is_never_reached:
  "handle_each es ctx opts has_callback now rc =
     (map (\<lambda>e. Throw (new_TypeError ''logger[opts.logLevel] is not a function'')) es, rc)
   \<and> retry retry_options
   \<and> shouldRetry (errorCode_of timeout_error) (maxRetries retry_options)
   \<and> handle_each [timeout_error, timeout_error, timeout_error, timeout_error]
        ''api'' retry_options False ''t'' [] =
       ([Throw (new_TypeError ''logger[opts.logLevel] is not a function''),
         Throw (new_TypeError ''logger[opts.logLevel] is not a function''),
         Throw (new_TypeError ''logger[opts.logLevel] is not a function''),
         Throw (new_TypeError ''logger[opts.logLevel] is not a function'')], [])
   \<and> handleApiError timeout_error ''api'' retry_options False ''t'' [(''ERR_NETWORK_01'', 3)] =
       (Throw (new_TypeError ''logger[opts.logLevel] is not a function''),
        [(''ERR_NETWORK_01'', 3)])
   \<and> getRetryCount [(''ERR_NETWORK_01'', 3)] (errorCode_of timeout_error) = 3
   \<and> Throw (new_TypeError ''logger[opts.logLevel] is not a function'') \<noteq> Throw timeout_error"
proof -
  have "shouldRetry (errorCode_of timeout_error) (maxRetries retry_options)"
    by (simp add: shouldRetry_def RETRY_CONFIG_def errorCode_of_def error_eval example_eval)
  moreover have "getRetryCount [(''ERR_NETWORK_01'', 3)] (errorCode_of timeout_error) = 3"
    by (simp add: getRetryCount_def map_get_def errorCode_of_def error_eval example_eval)
  moreover have "Throw (new_TypeError ''logger[opts.logLevel] is not a function'')
      \<noteq> Throw timeout_error"
    by (simp add: error_eval example_eval)
  ultimately show ?thesis
    by (simp add: handle_each_throws handleApiError_throws example_eval)
qed

theorem retry_bookkeeping_is_never_reached_witness:
  "fst (handle_each [timeout_error, timeout_error, timeout_error, timeout_error, timeout_error]
         ''api'' retry_options True ''t'' []) =
     [Throw (new_TypeError ''logger[opts.logLevel] is not a function''),
      Throw (new_TypeError ''logger[opts.logLevel] is not a function''),
      Throw (new_TypeError ''logger[opts.logLevel] is not a function''),
      Throw (new_TypeError ''logger[opts.logLevel] is not a function''),
      Throw (new_TypeError ''logger[opts.logLevel] is not a function'')]
   \<and> getRetryCount (snd (handle_each
         [timeout_error, timeout_error, timeout_error, timeout_error, timeout_error]
         ''api'' retry_options True ''t'' [])) ''ERR_NETWORK_01'' = 0"
  using retry_bookkeeping_is_never_reached
    [of "[timeout_error, timeout_error, timeout_error, timeout_error, timeout_error]"
        "''api''" retry_options True "''t''" "[]"]
  by (simp add: getRetryCount_def map_get_def)

section \<open>What the caller receives\<close>

text \<open>
  C8 does not hold of the code, by the same defect. Whatever the error, the options and
  the caller's style, \<^verbatim>\<open>handleApiError\<close> rejects with the \<^verbatim>\<open>TypeError\<close> of the logger call and
  leaves the retry counts alone; the \<^verbatim>\<open>TypeError\<close> is not an \<^verbatim>\<open>FCAError\<close>. An error that is not
  an \<^verbatim>\<open>FCAError\<close> does not come wrapped in a \<^verbatim>\<open>NetworkError\<close>, an \<^verbatim>\<open>FCAError\<close> is not thrown
  again, and a callback is not called.
\<close>

theorem handler_rejects_with_TypeError:
  "handleApiError e ctx opts has_callback now rc =
     (Throw (new_TypeError ''logger[opts.logLevel] is not a function''), rc)
   \<and> \<not> instanceof (new_TypeError ''logger[opts.logLevel] is not a function'') FCAError
   \<and> fst (handleApiError (new_Error ''socket hang up'') ''login'' default_options False ''t'' [])
       \<noteq> Throw (new_NetworkError ''An unexpected error occurred''
                  (JObj [(''originalError'', JErr (new_Error ''socket hang up''))]) ''t'')
   \<and> fst (handleApiError (new_ValidationError ''Invalid input'' JUndefined ''t0'') ''login''
            default_options False ''t'' [])
       \<noteq> Throw (new_ValidationError ''Invalid input'' JUndefined ''t0'')
   \<and> fst (handleApiError (new_ValidationError ''Invalid input'' JUndefined ''t0'') ''login''
            default_options True ''t'' [])
       \<noteq> CallbackWith (new_ValidationError ''Invalid input'' JUndefined ''t0'')"
  by (simp add: handleApiError_throws instanceof_def error_eval)

theorem handler_rejects_with_TypeError_witness:
  "handleApiError (new_Error ''socket hang up'') ''login'' default_options False ''t'' [] =
     (Throw (new_TypeError ''logger[opts.logLevel] is not a function''), [])
   \<and> handleApiError (new_ValidationError ''Invalid input'' JUndefined ''t0'') ''login''
        (default_options\<lparr> logLevel := Level_warn, report := False \<rparr>) True ''t'' [] =
     (Throw (new_TypeError ''logger[opts.logLevel] is not a function''), [])"
  using handler_rejects_with_TypeError
      [of "new_Error ''socket hang up''" "''login''" default_options False "''t''" "[]"]
    handler_rejects_with_TypeError
      [of "new_ValidationError ''Invalid input'' JUndefined ''t0''" "''login''"
          "default_options\<lparr> logLevel := Level_warn, report := False \<rparr>" True "''t''" "[]"]
  by simp

section \<open>Required parameters\<close>



end
